theory Spec2Isabelle
  imports Complex_Main
begin

section \<open>The retrying request executor (HttpClient.js)\<close>

text \<open>
  JavaScript numbers are modelled as exact reals (rounding of doubles and NaN are left
  out); the attempt counter of the loop only ever holds 0, 1, 2, ... and is a natural
  number. An optional numeric property is a \<open>real option\<close>, \<open>None\<close> standing for a
  property that is absent (\<open>undefined\<close>).
\<close>

text \<open>
  \<open>a || b\<close> on an optional number: the left operand is taken unless it is falsy, and an
  absent property and the number 0 are the falsy ones.
\<close>

definition js_or :: "real option \<Rightarrow> real \<Rightarrow> real" where
  "js_or a b = (case a of None \<Rightarrow> b | Some v \<Rightarrow> if v = 0 then b else v)"

text \<open>The fields the constructor of \<open>HttpClient\<close> stores (lines 10-15).\<close>

record http_client =
  retries :: real
  backoffBase :: real
  backoffFactor :: real
  timeout :: real

text \<open>
  What the platform's \<open>fetch\<close> hands back. A response carries its status and what its
  \<open>json()\<close> method does: \<open>Some v\<close> when it resolves with the parsed body \<open>v\<close>, \<open>None\<close>
  when it rejects.
\<close>

record 'j response =
  status :: int
  json :: "'j option"

text \<open>
  One call of \<open>fetch\<close> either resolves with a response or rejects with an error
  \<open>err\<close>. Of a rejection the loop reads two things: \<open>err?.name\<close> (\<open>None\<close> when the
  error has no name) and \<open>controller.signal.aborted\<close> of the attempt's own controller,
  which is true exactly when the deadline armed by the executor has fired. The
  source calls a rejection named \<open>AbortError\<close> whose own controller has not fired a
  cancellation by the user or the browser (CASE A, line 47); this is the only way a
  cancellation from outside reaches the loop, since the \<open>signal\<close> handed to \<open>fetch\<close> is
  always the attempt's own (lines 28-31).
\<close>

datatype 'j fetch_outcome =
  Resolves "'j response"
  | Rejects "string option" bool

text \<open>
  The transport is given by what \<open>fetch\<close> does at each attempt index. The request
  descriptor (address, method, headers, body) is the same at every attempt and does not
  appear.
\<close>

type_synonym 'j transport = "nat \<Rightarrow> 'j fetch_outcome"

text \<open>
  What \<open>request\<close> returns: a response handle, an object \<open>{error: kind}\<close>, or
  \<open>undefined\<close> when the loop is left without a \<open>return\<close>.
\<close>

datatype 'j request_result =
  ResponseHandle "'j response"
  | ErrorObject string
  | ReturnsUndefined

text \<open>
  The observable actions of the executor, in the order they happen: \<open>setTimeout\<close> of
  the abort with its delay (line 25), the call of \<open>fetch\<close> with the attempt index (line
  28), \<open>clearTimeout\<close> (line 64) and the wait before the next attempt with its delay
  (line 69).
\<close>

datatype event =
  ArmDeadline real
  | Fetch nat
  | ClearDeadline
  | Wait real

text \<open>Line 33.\<close>

definition isRetryableStatus :: "int \<Rightarrow> bool" where
  "isRetryableStatus s = ((s \<ge> 500 \<and> s < 600) \<or> s = 429)"

text \<open>
  The \<open>try\<close>/\<open>catch\<close> of one attempt (lines 27-62): \<open>Some r\<close> when the attempt
  executes \<open>return r\<close>, \<open>None\<close> when control falls through to the delay below it.
\<close>

definition attempt_body :: "http_client \<Rightarrow> 'j transport \<Rightarrow> nat \<Rightarrow> 'j request_result option" where
  "attempt_body c fetch attempt =
     (case fetch attempt of
        Resolves resp \<Rightarrow>
          if \<not> isRetryableStatus (status resp) \<or> real attempt = retries c
          then Some (ResponseHandle resp)
          else None
      | Rejects name aborted \<Rightarrow>
          (let isAbortError = (name = Some ''AbortError'');
               isOurTimeout = aborted
           in if isAbortError \<and> \<not> isOurTimeout then Some (ErrorObject ''request_aborted'')
              else if real attempt = retries c then
                (if isAbortError \<and> isOurTimeout then Some (ErrorObject ''timeout'')
                 else Some (ErrorObject ''network_error''))
              else None))"

text \<open>Line 68.\<close>

definition delay :: "http_client \<Rightarrow> nat \<Rightarrow> real" where
  "delay c attempt = backoffBase c * (backoffFactor c ^ attempt)"

text \<open>
  The \<open>for\<close> loop (lines 21-70), entered with the counter at \<open>attempt\<close>. Every attempt
  arms the deadline, calls \<open>fetch\<close> and clears the deadline in its \<open>finally\<close>; an attempt
  that does not return is followed by the wait. When the condition
  \<open>attempt <= this._retries\<close> fails, the function ends without a \<open>return\<close>.
\<close>

function request_loop ::
  "http_client \<Rightarrow> real \<Rightarrow> 'j transport \<Rightarrow> nat \<Rightarrow> event list \<times> 'j request_result" where
  "request_loop c reqTimeout fetch attempt =
     (if real attempt \<le> retries c then
        (case attempt_body c fetch attempt of
           Some r \<Rightarrow> ([ArmDeadline reqTimeout, Fetch attempt, ClearDeadline], r)
         | None \<Rightarrow>
             (let rest = request_loop c reqTimeout fetch (Suc attempt)
              in ([ArmDeadline reqTimeout, Fetch attempt, ClearDeadline, Wait (delay c attempt)]
                    @ fst rest, snd rest)))
      else ([], ReturnsUndefined))"
  by pat_completeness auto
termination
proof (relation "measure (\<lambda>(c, t, f, attempt). nat (\<lfloor>retries c\<rfloor> + 1 - int attempt))")
  show "wf (measure (\<lambda>(c :: http_client, t :: real, f :: 'j transport, attempt).
              nat (\<lfloor>retries c\<rfloor> + 1 - int attempt)))"
    by simp
next
  fix c :: http_client and reqTimeout :: real and fetch :: "'j transport" and attempt :: nat
  assume "real attempt \<le> retries c"
  then have "int attempt \<le> \<lfloor>retries c\<rfloor>"
    by (simp add: le_floor_iff)
  then show "((c, reqTimeout, fetch, Suc attempt), (c, reqTimeout, fetch, attempt))
             \<in> measure (\<lambda>(c, t, f, attempt). nat (\<lfloor>retries c\<rfloor> + 1 - int attempt))"
    by simp
qed

text \<open>
  \<open>request\<close> (lines 17-19): the per-request override of the timeout, when truthy,
  replaces the client's timeout; the loop starts at attempt 0. The result is the trace
  of actions and the value returned.
\<close>

definition request ::
  "http_client \<Rightarrow> 'j transport \<Rightarrow> real option \<Rightarrow> event list \<times> 'j request_result" where
  "request c fetch reqTimeoutOverride =
     request_loop c (js_or reqTimeoutOverride (timeout c)) fetch 0"

text \<open>
  The options of \<open>request\<close> other than \<open>timeout\<close> go to \<open>fetch\<close> (line 18), and a caller
  that wants to cancel puts its own \<open>signal\<close> there. Of these options only the property
  \<open>signal\<close> is kept: an object is a map from property names to signals. There are two
  signals, the one of the attempt's own controller and the caller's.
\<close>

datatype abort_signal = OwnSignal | CallerSignal

text \<open>
  The object handed to \<open>fetch\<close> (lines 28-31) is
  \<open>{...fetchOptions, signal: controller.signal}\<close>: the properties of \<open>fetchOptions\<close>, with
  \<open>signal\<close> then set to the own controller's.
\<close>

definition fetch_init ::
  "(string \<rightharpoonup> abort_signal) \<Rightarrow> abort_signal \<Rightarrow> (string \<rightharpoonup> abort_signal)" where
  "fetch_init fetchOptions controllerSignal = fetchOptions(''signal'' \<mapsto> controllerSignal)"

text \<open>
  \<open>request\<close> with its options. Here \<open>fetch\<close> is given by what it does at each attempt for
  each \<open>signal\<close> property it may be handed (\<open>None\<close> when the property is absent).
\<close>

definition request_options ::
  "http_client \<Rightarrow> (abort_signal option \<Rightarrow> 'j transport) \<Rightarrow> (string \<rightharpoonup> abort_signal)
   \<Rightarrow> real option \<Rightarrow> event list \<times> 'j request_result" where
  "request_options c fetch fetchOptions reqTimeoutOverride =
     request c (\<lambda>attempt. fetch (fetch_init fetchOptions OwnSignal ''signal'') attempt)
       reqTimeoutOverride"

section \<open>The orchestrator (class IGPT)\<close>

definition DEFAULT_TIMEOUT_MS :: real where
  "DEFAULT_TIMEOUT_MS = 60000"

definition DEFAULT_STREAM_TIMEOUT_MS :: real where
  "DEFAULT_STREAM_TIMEOUT_MS = 10 * 60000"

text \<open>
  The options of the constructor (typedef \<open>IGPTLoginOptions\<close>): the three numeric
  options are numbers or absent.
\<close>

record igpt_options =
  options_apiKey :: string
  options_user :: "string option"
  options_baseUrl :: "string option"
  options_retries :: "real option"
  options_backoffBase :: "real option"
  options_backoffFactor :: "real option"

text \<open>The private fields of the client; \<open>igpt_timeout\<close> is \<open>this._timeout\<close>.\<close>

record igpt =
  apiKey :: string
  baseUrl :: string
  user :: "string option"
  igpt_timeout :: real
  streamTimeout :: real
  http :: http_client

text \<open>The constructor (lines 162-175 of the class).\<close>

definition new_IGPT :: "igpt_options \<Rightarrow> igpt" where
  "new_IGPT opts =
     \<lparr>apiKey = options_apiKey opts,
      baseUrl = (case options_baseUrl opts of
                   None \<Rightarrow> ''https://api.igpt.ai/v1''
                 | Some u \<Rightarrow> if u = [] then ''https://api.igpt.ai/v1'' else u),
      user = options_user opts,
      igpt_timeout = DEFAULT_TIMEOUT_MS,
      streamTimeout = DEFAULT_STREAM_TIMEOUT_MS,
      http = \<lparr>retries = js_or (options_retries opts) 3,
              backoffBase = js_or (options_backoffBase opts) 100,
              backoffFactor = js_or (options_backoffFactor opts) 2,
              timeout = DEFAULT_TIMEOUT_MS\<rparr>\<rparr>"

text \<open>
  \<open>_execute\<close>: the request goes to the executor with the timeout chosen by
  \<open>isStream\<close>. The address, the headers and the serialised body do not influence the
  loop and are part of the transport.
\<close>

definition execute :: "igpt \<Rightarrow> 'j transport \<Rightarrow> bool \<Rightarrow> event list \<times> 'j request_result" where
  "execute g fetch isStream =
     request (http g) fetch (Some (if isStream then streamTimeout g else igpt_timeout g))"

text \<open>What \<open>_postJson\<close> returns: the parsed body or an object \<open>{error: kind}\<close>.\<close>

datatype 'j json_result =
  ParsedJson 'j
  | ErrorValue string

text \<open>
  \<open>_postJson\<close>: \<open>res?.error\<close> is truthy for an error object with a non-empty kind; a
  response handle has no such property. On \<open>undefined\<close>, and on an error object whose kind
  is the empty string, \<open>res.json()\<close> raises inside the \<open>try\<close>, which the \<open>catch\<close> turns
  into \<open>invalid_json_response\<close>.
\<close>

definition postJson :: "igpt \<Rightarrow> 'j transport \<Rightarrow> 'j json_result" where
  "postJson g fetch =
     (case snd (execute g fetch False) of
        ErrorObject e \<Rightarrow>
          if e \<noteq> [] then ErrorValue e else ErrorValue ''invalid_json_response''
      | ResponseHandle res \<Rightarrow>
          (case json res of
             Some v \<Rightarrow> ParsedJson v
           | None \<Rightarrow> ErrorValue ''invalid_json_response'')
      | ReturnsUndefined \<Rightarrow> ErrorValue ''invalid_json_response'')"

section \<open>The incremental stream decoder (StreamParser.js)\<close>

text \<open>
  A JavaScript string is a list of UTF-16 code units, each a natural number. \<open>ascii\<close>
  writes a string of ASCII characters as such a list, so that \<open>ascii ''data:''\<close> is the
  string literal \<open>data:\<close> of the source.
\<close>

type_synonym jsstring = "nat list"

definition ascii :: "string \<Rightarrow> jsstring" where
  "ascii s = map of_char s"

text \<open>
  \<open>String.prototype.trim\<close> removes white space and line terminators at both ends: TAB,
  LF, VT, FF, CR, SP, NBSP, U+1680, U+2000 to U+200A, U+2028, U+2029, U+202F, U+205F,
  U+3000 and U+FEFF.
\<close>

definition isWhiteSpace :: "nat \<Rightarrow> bool" where
  "isWhiteSpace u =
     (u = 9 \<or> u = 10 \<or> u = 11 \<or> u = 12 \<or> u = 13 \<or> u = 32 \<or> u = 160 \<or> u = 5760
      \<or> (8192 \<le> u \<and> u \<le> 8202) \<or> u = 8232 \<or> u = 8233 \<or> u = 8239 \<or> u = 8287
      \<or> u = 12288 \<or> u = 65279)"

definition trim :: "jsstring \<Rightarrow> jsstring" where
  "trim s = rev (dropWhile isWhiteSpace (rev (dropWhile isWhiteSpace s)))"

definition startsWith :: "jsstring \<Rightarrow> jsstring \<Rightarrow> bool" where
  "startsWith s p = (take (length p) s = p)"

definition slice :: "jsstring \<Rightarrow> nat \<Rightarrow> jsstring" where
  "slice s i = drop i s"

text \<open>
  \<open>split\<close> at the newline (code unit 10): the pieces between the newlines; the empty
  string gives one empty piece, so the result is never empty.
\<close>

fun split_newline :: "jsstring \<Rightarrow> jsstring list" where
  "split_newline [] = [[]]"
| "split_newline (u # us) =
     (if u = 10 then [] # split_newline us
      else (case split_newline us of
              [] \<Rightarrow> [[u]]
            | l # ls \<Rightarrow> (u # l) # ls))"

text \<open>
  \<open>lines.pop()\<close> returns the last element (\<open>undefined\<close> on an empty array) and leaves
  the others; the \<open>||\<close> after it replaces \<open>undefined\<close> by the empty string.
\<close>

definition pop :: "'a list \<Rightarrow> 'a option \<times> 'a list" where
  "pop xs = (if xs = [] then (None, []) else (Some (last xs), butlast xs))"

definition or_empty :: "jsstring option \<Rightarrow> jsstring" where
  "or_empty a = (case a of None \<Rightarrow> [] | Some s \<Rightarrow> if s = [] then [] else s)"

text \<open>
  What the sequence produces: a value parsed from a frame, or the object
  \<open>{error: "network_error"}\<close>. The actions on a stream: \<open>getReader()\<close> in the
  constructor (line 10), and in an iteration a call of \<open>reader.read()\<close>, a \<open>yield\<close>,
  and \<open>reader.releaseLock()\<close>.
\<close>

datatype 'v yielded = Json 'v | NetworkError

datatype 'v stream_event = GetReader | Read | Yield "'v yielded" | ReleaseLock

text \<open>
  The byte source is the list of what its successive reads do: deliver a chunk of bytes
  or raise. A read past the end of the list reports \<open>done\<close>. A byte is a \<open>char\<close>.
\<close>

type_synonym bytes = "char list"

datatype read_result = Chunk bytes | ReadRaises

text \<open>
  How a piece of the generator's body ends: it runs on, or the consumer has called
  \<open>return()\<close> while the generator was suspended at a \<open>yield\<close> (a \<open>break\<close> out of
  \<open>for await\<close>).
\<close>

datatype completion = Normal | Return

text \<open>
  Two functions of the platform are parameters of the model:
  \<^item> \<open>parse\<close> is \<open>JSON.parse\<close>, \<open>None\<close> when it raises;
  \<^item> \<open>decode\<close> is \<open>decoder.decode(value, {stream: true})\<close>: from the decoder's state and
    a chunk it gives the decoded text and the decoder's next state.
\<close>

text \<open>
  The body of the loop over the lines (lines 42-52) up to the \<open>yield\<close>: the value to
  produce for the line \<open>raw\<close>, \<open>None\<close> when the body reaches a \<open>continue\<close> or the \<open>catch\<close>.
\<close>

definition decode_line :: "(jsstring \<Rightarrow> 'v option) \<Rightarrow> jsstring \<Rightarrow> 'v option" where
  "decode_line parse raw =
     (let line = trim raw
      in if \<not> startsWith line (ascii ''data:'') then None
         else (let jsonStr = trim (slice line 5)
               in if jsonStr = [] then None
                  else parse jsonStr))"

text \<open>
  The consumer is the function \<open>leaves\<close>: given the values it has received so far, the
  last one included, it says whether it now abandons the iteration. \<open>seen\<close> are the
  values produced so far.

  \<open>for (const raw of lines)\<close> (lines 41-53).
\<close>

fun for_lines ::
  "(jsstring \<Rightarrow> 'v option) \<Rightarrow> ('v yielded list \<Rightarrow> bool) \<Rightarrow> 'v yielded list \<Rightarrow> jsstring list
   \<Rightarrow> 'v stream_event list \<times> 'v yielded list \<times> completion" where
  "for_lines parse leaves seen [] = ([], seen, Normal)"
| "for_lines parse leaves seen (raw # rest) =
     (case decode_line parse raw of
        None \<Rightarrow> for_lines parse leaves seen rest
      | Some v \<Rightarrow>
          (if leaves (seen @ [Json v]) then ([Yield (Json v)], seen @ [Json v], Return)
           else (case for_lines parse leaves (seen @ [Json v]) rest of
                   (es, seen', k) \<Rightarrow> (Yield (Json v) # es, seen', k))))"

text \<open>
  \<open>while (true)\<close> (lines 17-54), with the buffer \<open>this._buffer\<close> and the state \<open>d\<close> of the
  decoder. The result is the trace, the buffer, the values produced and how the loop
  ended.
\<close>

fun while_loop ::
  "(jsstring \<Rightarrow> 'v option) \<Rightarrow> ('d \<Rightarrow> bytes \<Rightarrow> jsstring \<times> 'd) \<Rightarrow> ('v yielded list \<Rightarrow> bool)
   \<Rightarrow> jsstring \<Rightarrow> 'd \<Rightarrow> 'v yielded list \<Rightarrow> read_result list
   \<Rightarrow> 'v stream_event list \<times> jsstring \<times> 'v yielded list \<times> completion" where
  "while_loop parse decode leaves buffer d seen [] = ([Read], buffer, seen, Normal)"
| "while_loop parse decode leaves buffer d seen (ReadRaises # rest) =
     ([Read, Yield NetworkError], buffer, seen @ [NetworkError],
      if leaves (seen @ [NetworkError]) then Return else Normal)"
| "while_loop parse decode leaves buffer d seen (Chunk val # rest) =
     (case decode d val of
        (text, d') \<Rightarrow>
          (let lines = split_newline (buffer @ text);
               buffer' = or_empty (fst (pop lines))
           in (case for_lines parse leaves seen (snd (pop lines)) of
                 (es, seen', Return) \<Rightarrow> (Read # es, buffer', seen', Return)
               | (es, seen', Normal) \<Rightarrow>
                   (case while_loop parse decode leaves buffer' d' seen' rest of
                      (es', r) \<Rightarrow> (Read # es @ es', r)))))"

text \<open>
  The generator \<open>[Symbol.asyncIterator]\<close> of a parser fresh from its constructor
  (with an empty \<open>_buffer\<close>), from the consumer's first pull: the \<open>try\<close> block is the loop, and
  the \<open>finally\<close> releases the reader however the loop ended. The result is the trace, the
  buffer left and the values the consumer received.
\<close>

definition iterate ::
  "(jsstring \<Rightarrow> 'v option) \<Rightarrow> ('d \<Rightarrow> bytes \<Rightarrow> jsstring \<times> 'd) \<Rightarrow> 'd \<Rightarrow> ('v yielded list \<Rightarrow> bool)
   \<Rightarrow> read_result list \<Rightarrow> 'v stream_event list \<times> jsstring \<times> 'v yielded list" where
  "iterate parse decode init leaves reads =
     (case while_loop parse decode leaves [] init [] reads of
        (es, buffer, seen, k) \<Rightarrow> (es @ [ReleaseLock], buffer, seen))"





section \<open>Reading traces\<close>

text \<open>The actions of one attempt, and of an attempt followed by its wait.\<close>

definition attempt_events :: "real \<Rightarrow> nat \<Rightarrow> event list" where
  "attempt_events t k = [ArmDeadline t, Fetch k, ClearDeadline]"

definition retried_attempt :: "http_client \<Rightarrow> real \<Rightarrow> nat \<Rightarrow> event list" where
  "retried_attempt c t k = attempt_events t k @ [Wait (delay c k)]"

text \<open>The attempt indices of the calls of \<open>fetch\<close> in a trace.\<close>

fun attempts :: "event list \<Rightarrow> nat list" where
  "attempts [] = []"
| "attempts (Fetch k # es) = k # attempts es"
| "attempts (e # es) = attempts es"

text \<open>The consumer that iterates to the end.\<close>

definition never :: "'v yielded list \<Rightarrow> bool" where
  "never seen = False"

text \<open>The values produced in a trace.\<close>

fun yields :: "'v stream_event list \<Rightarrow> 'v yielded list" where
  "yields [] = []"
| "yields (Yield y # es) = y # yields es"
| "yields (e # es) = yields es"

text \<open>
  The lines of a text that a newline terminates, and the fragment after the last
  newline.
\<close>

definition complete_lines :: "jsstring \<Rightarrow> jsstring list" where
  "complete_lines s = butlast (split_newline s)"

definition fragment :: "jsstring \<Rightarrow> jsstring" where
  "fragment s = last (split_newline s)"

text \<open>The text the decoder returns for a list of chunks, fed in order.\<close>

fun decode_chunks :: "('d \<Rightarrow> bytes \<Rightarrow> jsstring \<times> 'd) \<Rightarrow> 'd \<Rightarrow> bytes list \<Rightarrow> jsstring" where
  "decode_chunks decode d [] = []"
| "decode_chunks decode d (c # cs) =
     (case decode d c of (text, d') \<Rightarrow> text @ decode_chunks decode d' cs)"

section \<open>Instances for the examples\<close>

text \<open>
  The concrete runs below need a parser and a decoder. \<open>example_parse\<close> agrees with
  \<open>JSON.parse\<close> on the two objects it accepts and on the inputs of the examples that
  are not JSON; \<open>ascii_decode\<close> agrees with a UTF-8 \<open>TextDecoder\<close> on ASCII bytes and has
  no state.
\<close>

datatype json_value = JNumber int | JObject "(string \<times> json_value) list"

definition example_parse :: "jsstring \<Rightarrow> json_value option" where
  "example_parse s =
     (if s = ascii ''{\"a\":1}'' then Some (JObject [(''a'', JNumber 1)])
      else if s = ascii ''{\"b\":2}'' then Some (JObject [(''b'', JNumber 2)])
      else None)"

definition ascii_decode :: "unit \<Rightarrow> bytes \<Rightarrow> jsstring \<times> unit" where
  "ascii_decode d val = (ascii val, d)"


section \<open>Properties of the retry loop\<close>

text \<open>
  The defining equation of the loop unfolds forever under the simplifier; the three
  lemmas after it unfold it once, by the case the loop is in.
\<close>

declare request_loop.simps [simp del]

lemma loop_return:
  "real a \<le> retries c \<Longrightarrow> attempt_body c f a = Some r \<Longrightarrow>
   request_loop c t f a = (attempt_events t a, r)"
  by (subst request_loop.simps) (simp add: attempt_events_def)

lemma loop_retry:
  "real a \<le> retries c \<Longrightarrow> attempt_body c f a = None \<Longrightarrow>
   request_loop c t f a =
     (retried_attempt c t a @ fst (request_loop c t f (Suc a)), snd (request_loop c t f (Suc a)))"
  by (subst request_loop.simps) (simp add: attempt_events_def retried_attempt_def Let_def)

lemma loop_exit:
  "\<not> real a \<le> retries c \<Longrightarrow> request_loop c t f a = ([], ReturnsUndefined)"
  by (subst request_loop.simps) simp

text \<open>
  When the attempts before \<open>k\<close> all fall through, the loop arrives at attempt \<open>k\<close>
  after their actions and waits.
\<close>

lemma loop_skip:
  assumes "real k \<le> retries c" and "\<forall>j<k. attempt_body c f j = None"
  shows "request_loop c t f 0 =
           (concat (map (retried_attempt c t) [0..<k]) @ fst (request_loop c t f k),
            snd (request_loop c t f k))"
  using assms
proof (induction k)
  case 0
  then show ?case by simp
next
  case (Suc k)
  have le: "real k \<le> retries c" using Suc.prems(1) by simp
  have none: "attempt_body c f k = None" using Suc.prems(2) by simp
  have "request_loop c t f 0 =
           (concat (map (retried_attempt c t) [0..<k]) @ fst (request_loop c t f k),
            snd (request_loop c t f k))"
    using Suc.IH le Suc.prems(2) by simp
  then show ?case
    by (simp add: loop_retry [OF le none])
qed

lemma attempts_append: "attempts (xs @ ys) = attempts xs @ attempts ys"
  by (induction xs rule: attempts.induct) simp_all

lemma attempts_retried: "attempts (concat (map (retried_attempt c t) [a..<a + n])) = [a..<a + n]"
  by (induction n) (simp_all add: attempts_append retried_attempt_def attempt_events_def)

lemma retryable_falls_through:
  "fetch k = Resolves resp \<Longrightarrow> isRetryableStatus (status resp) \<Longrightarrow> real k \<noteq> retries c \<Longrightarrow>
   attempt_body c fetch k = None"
  by (simp add: attempt_body_def)

lemma resolves_last:
  "fetch k = Resolves resp \<Longrightarrow> real k = retries c \<Longrightarrow>
   attempt_body c fetch k = Some (ResponseHandle resp)"
  by (simp add: attempt_body_def)

lemma preceded_trace:
  "concat (map (retried_attempt c t) [0..<n]) @ attempt_events t n =
   concat (map (\<lambda>k. (if k = 0 then [] else [Wait (backoffBase c * backoffFactor c ^ (k - 1))])
                    @ [ArmDeadline t, Fetch k, ClearDeadline])
               [0..<Suc n])"
  by (induction n) (simp_all add: retried_attempt_def attempt_events_def delay_def)

lemma request_reaches:
  assumes "real k \<le> retries c" and "\<forall>j<k. attempt_body c fetch j = None"
    and "attempt_body c fetch k = Some r"
  shows "request c fetch override =
           (concat (map (retried_attempt c (js_or override (timeout c))) [0..<k])
              @ attempt_events (js_or override (timeout c)) k, r)"
  unfolding request_def
  by (simp add: loop_skip [OF assms(1,2)] loop_return [OF assms(1,3)])

lemma attempts_reached:
  "attempts (concat (map (retried_attempt c t) [0..<k]) @ attempt_events t k) = [0..<Suc k]"
  using attempts_retried [of c t 0 k]
  by (simp add: attempts_append attempt_events_def)

text \<open>
  C1. With \<open>maxRetries = n\<close> and a transport that always completes with a retryable
  status (a 5xx or 429), \<open>request\<close> issues exactly \<open>n + 1\<close> attempts, numbered 0 to
  \<open>n\<close>; nothing is waited before attempt 0, and the wait before each attempt
  \<open>k \<ge> 1\<close> is \<open>backoffBase * backoffFactor ^ (k - 1)\<close>. The trace is given in full:
  each attempt arms the deadline, calls \<open>fetch\<close> and clears the deadline.
\<close>

theorem always_retryable_attempts:
  assumes n: "retries c = real n"
    and retryable: "\<forall>k. \<exists>resp. fetch k = Resolves resp \<and> isRetryableStatus (status resp)"
  shows "fst (request c fetch override) =
           concat (map (\<lambda>k. (if k = 0 then [] else [Wait (backoffBase c * backoffFactor c ^ (k - 1))])
                            @ [ArmDeadline (js_or override (timeout c)), Fetch k, ClearDeadline])
                       [0..<Suc n])
         \<and> attempts (fst (request c fetch override)) = [0..<Suc n]
         \<and> length (attempts (fst (request c fetch override))) = n + 1"
proof -
  let ?t = "js_or override (timeout c)"
  have le: "real n \<le> retries c" using n by simp
  have early: "\<forall>j<n. attempt_body c fetch j = None"
  proof (intro allI impI)
    fix j assume "j < n"
    then have "real j \<noteq> retries c" using n by simp
    moreover obtain resp where "fetch j = Resolves resp" "isRetryableStatus (status resp)"
      using retryable by blast
    ultimately show "attempt_body c fetch j = None"
      by (simp add: retryable_falls_through)
  qed
  obtain resp where last: "fetch n = Resolves resp"
    using retryable by blast
  have body_n: "attempt_body c fetch n = Some (ResponseHandle resp)"
    using last n by (simp add: resolves_last)
  have tr: "fst (request c fetch override) =
              concat (map (retried_attempt c ?t) [0..<n]) @ attempt_events ?t n"
    unfolding request_def
    by (simp add: loop_skip [OF le early] loop_return [OF le body_n])
  have att: "attempts (fst (request c fetch override)) = [0..<Suc n]"
    using attempts_retried [of c ?t 0 n]
    by (simp add: tr attempts_append attempt_events_def)
  have "fst (request c fetch override) =
           concat (map (\<lambda>k. (if k = 0 then [] else [Wait (backoffBase c * backoffFactor c ^ (k - 1))])
                            @ [ArmDeadline ?t, Fetch k, ClearDeadline])
                       [0..<Suc n])"
    by (simp only: tr preceded_trace)
  then show ?thesis
    using att by simp
qed

text \<open>
  Two retries, base 100, factor 2, every response a 503: three attempts, with waits of
  100 and 200 before the second and the third.
\<close>

theorem always_retryable_attempts_witness:
  "fst (request \<lparr>retries = 2, backoffBase = 100, backoffFactor = 2, timeout = 60000\<rparr>
          (\<lambda>k. Resolves \<lparr>status = 503, json = (None :: nat option)\<rparr>) None) =
     [ArmDeadline 60000, Fetch 0, ClearDeadline,
      Wait 100, ArmDeadline 60000, Fetch 1, ClearDeadline,
      Wait 200, ArmDeadline 60000, Fetch 2, ClearDeadline]"
  using always_retryable_attempts
    [of "\<lparr>retries = 2, backoffBase = 100, backoffFactor = 2, timeout = 60000\<rparr>" 2
        "\<lambda>k. Resolves \<lparr>status = 503, json = (None :: nat option)\<rparr>" None]
  by (simp add: isRetryableStatus_def js_or_def upt_rec)

text \<open>
  CASE A of the \<open>catch\<close> (line 48). At any attempt \<open>k\<close> the loop reaches, final or
  not, a rejection of \<open>fetch\<close> with an \<open>AbortError\<close> while the attempt's own controller
  has not fired makes \<open>request\<close> return \<open>{error: "request_aborted"}\<close> at once:
  attempt \<open>k\<close> is the last call of \<open>fetch\<close> and no wait follows it, however many
  retries remain.
\<close>

lemma caller_abort_not_retried:
  assumes "real k \<le> retries c"
    and "\<forall>j<k. attempt_body c fetch j = None"
    and "fetch k = Rejects (Some ''AbortError'') False"
  shows "snd (request c fetch override) = ErrorObject ''request_aborted''
         \<and> attempts (fst (request c fetch override)) = [0..<Suc k]
         \<and> last (fst (request c fetch override)) = ClearDeadline"
proof -
  have "attempt_body c fetch k = Some (ErrorObject ''request_aborted'')"
    using assms(3) by (simp add: attempt_body_def)
  then have "request c fetch override =
           (concat (map (retried_attempt c (js_or override (timeout c))) [0..<k])
              @ attempt_events (js_or override (timeout c)) k, ErrorObject ''request_aborted'')"
    using assms(1,2) by (rule request_reaches [rotated 2])
  then show ?thesis
    by (simp add: attempts_reached) (simp add: attempt_events_def)
qed

text \<open>
  Three retries; the first response is a 500 and the second call of \<open>fetch\<close> rejects
  with an \<open>AbortError\<close> that is not the own controller's: two attempts, then
  \<open>request_aborted\<close>.
\<close>

lemma caller_abort_not_retried_example:
  "snd (request \<lparr>retries = 3, backoffBase = 100, backoffFactor = 2, timeout = 60000\<rparr>
          (\<lambda>k. if k = 0 then Resolves \<lparr>status = 500, json = (None :: nat option)\<rparr>
               else Rejects (Some ''AbortError'') False) None)
     = ErrorObject ''request_aborted''
   \<and> attempts (fst (request \<lparr>retries = 3, backoffBase = 100, backoffFactor = 2, timeout = 60000\<rparr>
          (\<lambda>k. if k = 0 then Resolves \<lparr>status = 500, json = (None :: nat option)\<rparr>
               else Rejects (Some ''AbortError'') False) None))
     = [0, 1]"
proof -
  let ?c = "\<lparr>retries = 3, backoffBase = 100, backoffFactor = 2, timeout = 60000\<rparr>"
  let ?f = "\<lambda>k::nat. if k = 0 then Resolves \<lparr>status = 500, json = (None :: nat option)\<rparr>
          else Rejects (Some ''AbortError'') False"
  have reached: "real 1 \<le> retries ?c"
    by simp
  have earlier: "\<forall>j<1. attempt_body ?c ?f j = None"
    by (simp add: attempt_body_def isRetryableStatus_def)
  have cancelled: "?f 1 = Rejects (Some ''AbortError'') False"
    by simp
  show ?thesis
    using caller_abort_not_retried [OF reached earlier cancelled, of None]
    by (simp add: upt_rec)
qed

text \<open>
  Such a rejection is the only way to \<open>request_aborted\<close>: when no call of \<open>fetch\<close>
  rejects with an \<open>AbortError\<close> while the own controller has not fired, the loop
  never returns it.
\<close>

lemma request_aborted_needs_rejection:
  "\<forall>k. fetch k \<noteq> Rejects (Some ''AbortError'') False \<Longrightarrow>
   snd (request_loop c t fetch a) \<noteq> ErrorObject ''request_aborted''"
proof (induction c t fetch a rule: request_loop.induct)
  case (1 c t f a)
  show ?case
  proof (cases "real a \<le> retries c")
    case False
    then show ?thesis by (simp add: loop_exit)
  next
    case True
    show ?thesis
    proof (cases "attempt_body c f a")
      case None
      then show ?thesis
        using "1.IH" [OF True None] "1.prems" by (simp add: loop_retry [OF True None])
    next
      case (Some r)
      have "r \<noteq> ErrorObject ''request_aborted''"
        using Some "1.prems" [rule_format, of a]
        by (auto simp: attempt_body_def Let_def split: fetch_outcome.splits if_splits)
      then show ?thesis
        by (simp add: loop_return [OF True Some])
    qed
  qed
qed

text \<open>
  The \<open>signal\<close> among the options of \<open>request\<close> does not reach \<open>fetch\<close>, which is
  always handed the own controller's. So with a \<open>fetch\<close> that rejects with an
  \<open>AbortError\<close> only when the signal it was handed has fired, \<open>request\<close> never returns
  \<open>request_aborted\<close>, whatever the caller's signal does.
\<close>

lemma caller_signal_unused:
  "request_options c fetch fetchOptions override = request c (fetch (Some OwnSignal)) override"
  by (simp add: request_options_def fetch_init_def)

lemma request_aborted_unreachable:
  assumes "\<forall>k. fetch (Some OwnSignal) k \<noteq> Rejects (Some ''AbortError'') False"
  shows "snd (request_options c fetch fetchOptions override) \<noteq> ErrorObject ''request_aborted''"
  unfolding caller_signal_unused request_def
  using assms by (rule request_aborted_needs_rejection)

text \<open>
  C2. The claim is that a cancellation by the caller during an attempt makes
  \<open>request\<close> return \<open>{error: "request_aborted"}\<close> at once. The code does not do this.
  A caller that passes its own \<open>signal\<close> in the options gets the result of the same
  request without that option, since line 30 sets \<open>signal\<close> after the options are
  spread. At the input below the caller's signal has fired during attempt 0 (a
  \<open>fetch\<close> handed it would reject with an \<open>AbortError\<close>), the own deadline has not,
  and the server answers 200: \<open>request\<close> returns the response handle after attempt 0
  and not \<open>request_aborted\<close>.
\<close>

theorem caller_signal_not_passed:
  "request_options c fetch (fetchOptions(''signal'' \<mapsto> CallerSignal)) override
     = request c (fetch (Some OwnSignal)) override
   \<and> request_options
        \<lparr>retries = 3, backoffBase = 100, backoffFactor = 2, timeout = 60000\<rparr>
        (\<lambda>signal k. if signal = Some CallerSignal then Rejects (Some ''AbortError'') False
                     else Resolves \<lparr>status = 200, json = Some (7 :: nat)\<rparr>)
        [''signal'' \<mapsto> CallerSignal] None
     = ([ArmDeadline 60000, Fetch 0, ClearDeadline], ResponseHandle \<lparr>status = 200, json = Some 7\<rparr>)"
  by (simp add: request_options_def fetch_init_def request_def request_loop.simps [of _ _ _ 0]
      attempt_body_def isRetryableStatus_def js_or_def)

text \<open>
  C3. Let \<open>maxRetries = n\<close> and let the executor's own deadline expire at an attempt
  \<open>k\<close> that the loop reaches (\<open>fetch\<close> rejects with an \<open>AbortError\<close> and the
  attempt's own controller has fired). If \<open>k = n\<close>, the final attempt, \<open>request\<close>
  returns \<open>{error: "timeout"}\<close>. If \<open>k < n\<close>, the attempt does not return: the loop
  waits and goes on with attempt \<open>k + 1\<close>, which is issued.
\<close>

theorem deadline_expiry:
  assumes "retries c = real n"
    and "k \<le> n"
    and "\<forall>j<k. attempt_body c fetch j = None"
    and "fetch k = Rejects (Some ''AbortError'') True"
  shows "(k = n \<longrightarrow>
            snd (request c fetch override) = ErrorObject ''timeout''
          \<and> attempts (fst (request c fetch override)) = [0..<Suc k])
       \<and> (k < n \<longrightarrow>
            attempt_body c fetch k = None
          \<and> request c fetch override =
              (concat (map (retried_attempt c (js_or override (timeout c))) [0..<Suc k])
                 @ fst (request_loop c (js_or override (timeout c)) fetch (Suc k)),
               snd (request_loop c (js_or override (timeout c)) fetch (Suc k)))
          \<and> take (k + 2) (attempts (fst (request c fetch override))) = [0..<k + 2])"
proof (intro conjI impI)
  assume "k = n"
  then have le: "real k \<le> retries c" and body: "attempt_body c fetch k = Some (ErrorObject ''timeout'')"
    using assms(1,4) by (simp_all add: attempt_body_def)
  have r: "request c fetch override =
           (concat (map (retried_attempt c (js_or override (timeout c))) [0..<k])
              @ attempt_events (js_or override (timeout c)) k, ErrorObject ''timeout'')"
    using le assms(3) body by (rule request_reaches)
  show "snd (request c fetch override) = ErrorObject ''timeout''"
    by (simp add: r)
  show "attempts (fst (request c fetch override)) = [0..<Suc k]"
    by (simp add: r attempts_reached)
next
  assume less: "k < n"
  let ?t = "js_or override (timeout c)"
  show none: "attempt_body c fetch k = None"
    using less assms(1,4) by (simp add: attempt_body_def)
  have le: "real (Suc k) \<le> retries c"
    using less assms(1) by simp
  have early: "\<forall>j<Suc k. attempt_body c fetch j = None"
    using assms(3) none by (simp add: less_Suc_eq)
  show split: "request c fetch override =
              (concat (map (retried_attempt c ?t) [0..<Suc k])
                 @ fst (request_loop c ?t fetch (Suc k)),
               snd (request_loop c ?t fetch (Suc k)))"
    unfolding request_def by (rule loop_skip [OF le early])
  have "\<exists>es. fst (request_loop c ?t fetch (Suc k)) = attempt_events ?t (Suc k) @ es"
    using le by (subst request_loop.simps) (simp add: attempt_events_def Let_def split: option.split)
  then obtain es where es: "fst (request_loop c ?t fetch (Suc k)) = attempt_events ?t (Suc k) @ es"
    by blast
  have "attempts (fst (request c fetch override)) = [0..<Suc (Suc k)] @ attempts es"
    using attempts_reached [of c ?t "Suc k"]
    by (simp add: split es attempts_append)
  then show "take (k + 2) (attempts (fst (request c fetch override))) = [0..<k + 2]"
    by simp
qed

text \<open>
  One retry and a deadline that expires at every attempt: attempt 0 is followed by
  attempt 1, and attempt 1 gives \<open>timeout\<close>.
\<close>

theorem deadline_expiry_witness:
  "snd (request \<lparr>retries = 1, backoffBase = 100, backoffFactor = 2, timeout = 60000\<rparr>
          (\<lambda>k. Rejects (Some ''AbortError'') True :: nat fetch_outcome) None) = ErrorObject ''timeout''
   \<and> take 2 (attempts (fst (request \<lparr>retries = 1, backoffBase = 100, backoffFactor = 2, timeout = 60000\<rparr>
          (\<lambda>k. Rejects (Some ''AbortError'') True :: nat fetch_outcome) None))) = [0, 1]"
proof -
  let ?c = "\<lparr>retries = 1, backoffBase = 100, backoffFactor = 2, timeout = 60000\<rparr>"
  let ?f = "\<lambda>k::nat. Rejects (Some ''AbortError'') True :: nat fetch_outcome"
  have n: "retries ?c = real 1" by simp
  have early1: "\<forall>j<1. attempt_body ?c ?f j = None"
    by (simp add: attempt_body_def)
  have early0: "\<forall>j<0. attempt_body ?c ?f j = None"
    by simp
  have rej: "\<And>k. ?f k = Rejects (Some ''AbortError'') True"
    by simp
  have final: "snd (request ?c ?f None) = ErrorObject ''timeout''"
    using deadline_expiry [OF n order_refl early1 rej, of None] by blast
  have "take (0 + 2) (attempts (fst (request ?c ?f None))) = [0..<0 + 2]"
    using deadline_expiry [OF n zero_le_one early0 rej, of None] zero_less_one by blast
  then have nonfinal: "take 2 (attempts (fst (request ?c ?f None))) = [0, 1]"
    by (simp add: upt_rec numeral_2_eq_2)
  show ?thesis
    using final nonfinal by simp
qed

text \<open>
  C4. A first attempt that completes with a status that is not retryable is returned
  as the response handle after that one attempt, whatever \<open>maxRetries \<ge> 0\<close> is; and
  a response at the last attempt \<open>k = maxRetries\<close> is returned as the response handle
  whatever its status, a retryable one included.
\<close>

theorem status_returned:
  "(0 \<le> retries c \<and> fetch 0 = Resolves resp \<and> \<not> isRetryableStatus (status resp) \<longrightarrow>
      request c fetch override =
        ([ArmDeadline (js_or override (timeout c)), Fetch 0, ClearDeadline], ResponseHandle resp))
   \<and> (real k = retries c \<and> (\<forall>j<k. attempt_body c fetch j = None) \<and> fetch k = Resolves resp' \<longrightarrow>
      snd (request c fetch override) = ResponseHandle resp'
      \<and> attempts (fst (request c fetch override)) = [0..<Suc k])"
proof (intro conjI impI)
  assume a: "0 \<le> retries c \<and> fetch 0 = Resolves resp \<and> \<not> isRetryableStatus (status resp)"
  then have le: "real 0 \<le> retries c" and body: "attempt_body c fetch 0 = Some (ResponseHandle resp)"
    by (simp_all add: attempt_body_def)
  show "request c fetch override =
        ([ArmDeadline (js_or override (timeout c)), Fetch 0, ClearDeadline], ResponseHandle resp)"
    unfolding request_def by (simp add: loop_return [OF le body] attempt_events_def)
next
  assume b: "real k = retries c \<and> (\<forall>j<k. attempt_body c fetch j = None) \<and> fetch k = Resolves resp'"
  then have le: "real k \<le> retries c" and early: "\<forall>j<k. attempt_body c fetch j = None"
    and body: "attempt_body c fetch k = Some (ResponseHandle resp')"
    by (simp_all add: resolves_last)
  have r: "request c fetch override =
           (concat (map (retried_attempt c (js_or override (timeout c))) [0..<k])
              @ attempt_events (js_or override (timeout c)) k, ResponseHandle resp')"
    using le early body by (rule request_reaches)
  show "snd (request c fetch override) = ResponseHandle resp'"
    by (simp add: r)
  show "attempts (fst (request c fetch override)) = [0..<Suc k]"
    by (simp add: r attempts_reached)
qed

text \<open>
  A 404 with three retries allowed returns after attempt 0; a 503 at every attempt
  with one retry allowed is returned as a handle after attempts 0 and 1.
\<close>

theorem status_returned_witness:
  "request \<lparr>retries = 3, backoffBase = 100, backoffFactor = 2, timeout = 60000\<rparr>
     (\<lambda>k. Resolves \<lparr>status = 404, json = (None :: nat option)\<rparr>) None
     = ([ArmDeadline 60000, Fetch 0, ClearDeadline], ResponseHandle \<lparr>status = 404, json = None\<rparr>)
   \<and> snd (request \<lparr>retries = 1, backoffBase = 100, backoffFactor = 2, timeout = 60000\<rparr>
          (\<lambda>k. Resolves \<lparr>status = 503, json = (None :: nat option)\<rparr>) None)
     = ResponseHandle \<lparr>status = 503, json = None\<rparr>
   \<and> attempts (fst (request \<lparr>retries = 1, backoffBase = 100, backoffFactor = 2, timeout = 60000\<rparr>
          (\<lambda>k. Resolves \<lparr>status = 503, json = (None :: nat option)\<rparr>) None)) = [0, 1]"
proof -
  let ?c3 = "\<lparr>retries = 3, backoffBase = 100, backoffFactor = 2, timeout = 60000\<rparr>"
  let ?c1 = "\<lparr>retries = 1, backoffBase = 100, backoffFactor = 2, timeout = 60000\<rparr>"
  let ?r404 = "\<lparr>status = 404, json = (None :: nat option)\<rparr>"
  let ?r503 = "\<lparr>status = 503, json = (None :: nat option)\<rparr>"
  have first: "request ?c3 (\<lambda>k. Resolves ?r404) None
                 = ([ArmDeadline 60000, Fetch 0, ClearDeadline], ResponseHandle ?r404)"
    using status_returned [of ?c3 "\<lambda>k. Resolves ?r404" ?r404 None 0 ?r404]
    by (simp add: isRetryableStatus_def js_or_def)
  have body0: "attempt_body ?c1 (\<lambda>k. Resolves ?r503) 0 = None"
    by (simp add: attempt_body_def isRetryableStatus_def)
  have last: "snd (request ?c1 (\<lambda>k. Resolves ?r503) None) = ResponseHandle ?r503
              \<and> attempts (fst (request ?c1 (\<lambda>k. Resolves ?r503) None)) = [0, 1]"
    using status_returned [of ?c1 "\<lambda>k. Resolves ?r503" ?r503 None 1 ?r503] body0
    by (simp add: upt_rec)
  show ?thesis
    using first last by simp
qed

section \<open>Properties of the orchestrator\<close>

text \<open>
  The error objects of \<open>request\<close> carry one of three kinds, none of them empty.
\<close>

lemma attempt_body_error_kinds:
  "attempt_body c f a = Some (ErrorObject e) \<Longrightarrow>
   e = ''request_aborted'' \<or> e = ''timeout'' \<or> e = ''network_error''"
  by (auto simp: attempt_body_def Let_def split: fetch_outcome.splits if_splits)

lemma loop_error_kinds:
  "snd (request_loop c t f a) = ErrorObject e \<Longrightarrow>
   e = ''request_aborted'' \<or> e = ''timeout'' \<or> e = ''network_error''"
proof (induction c t f a rule: request_loop.induct)
  case (1 c t f a)
  show ?case
  proof (cases "real a \<le> retries c")
    case False
    then show ?thesis using "1.prems" by (simp add: loop_exit)
  next
    case True
    show ?thesis
    proof (cases "attempt_body c f a")
      case None
      then show ?thesis
        using "1.IH" [OF True None] "1.prems" by (simp add: loop_retry [OF True None])
    next
      case (Some r)
      then show ?thesis
        using "1.prems" attempt_body_error_kinds [of c f a e] by (simp add: loop_return [OF True Some])
    qed
  qed
qed

text \<open>
  C9. In a call that does not stream, when the executor returns a response handle,
  \<open>_postJson\<close> returns the parsed body if \<open>json()\<close> resolves and
  \<open>{error: "invalid_json_response"}\<close> if it rejects; when the executor returns an
  error object, \<open>_postJson\<close> returns that error with its kind unchanged, whatever the
  transport would have parsed.
\<close>

theorem postJson_outcomes:
  "(snd (execute g fetch False) = ResponseHandle res \<and> json res = Some v \<longrightarrow>
      postJson g fetch = ParsedJson v)
   \<and> (snd (execute g fetch False) = ResponseHandle res \<and> json res = None \<longrightarrow>
      postJson g fetch = ErrorValue ''invalid_json_response'')
   \<and> (snd (execute g fetch False) = ErrorObject e \<longrightarrow>
      postJson g fetch = ErrorValue e)"
proof (intro conjI impI)
  assume "snd (execute g fetch False) = ResponseHandle res \<and> json res = Some v"
  then show "postJson g fetch = ParsedJson v" by (simp add: postJson_def)
next
  assume "snd (execute g fetch False) = ResponseHandle res \<and> json res = None"
  then show "postJson g fetch = ErrorValue ''invalid_json_response''" by (simp add: postJson_def)
next
  assume e: "snd (execute g fetch False) = ErrorObject e"
  then have "e = ''request_aborted'' \<or> e = ''timeout'' \<or> e = ''network_error''"
    unfolding execute_def request_def by (rule loop_error_kinds)
  then have "e \<noteq> []" by auto
  then show "postJson g fetch = ErrorValue e" using e by (simp add: postJson_def)
qed

text \<open>
  A client with the default options: a 200 with a body that parses, a 200 with a body
  that does not, and a request cancelled from outside.
\<close>

theorem postJson_outcomes_witness:
  "postJson (new_IGPT \<lparr>options_apiKey = ''key'', options_user = None, options_baseUrl = None,
                      options_retries = None, options_backoffBase = None, options_backoffFactor = None\<rparr>)
     (\<lambda>k. Resolves \<lparr>status = 200, json = Some (7 :: nat)\<rparr>) = ParsedJson 7
   \<and> postJson (new_IGPT \<lparr>options_apiKey = ''key'', options_user = None, options_baseUrl = None,
                      options_retries = None, options_backoffBase = None, options_backoffFactor = None\<rparr>)
     (\<lambda>k. Resolves \<lparr>status = 200, json = (None :: nat option)\<rparr>) = ErrorValue ''invalid_json_response''
   \<and> postJson (new_IGPT \<lparr>options_apiKey = ''key'', options_user = None, options_baseUrl = None,
                      options_retries = None, options_backoffBase = None, options_backoffFactor = None\<rparr>)
     (\<lambda>k. Rejects (Some ''AbortError'') False :: nat fetch_outcome) = ErrorValue ''request_aborted''"
proof -
  let ?g = "new_IGPT \<lparr>options_apiKey = ''key'', options_user = None, options_baseUrl = None,
                      options_retries = None, options_backoffBase = None, options_backoffFactor = None\<rparr>"
  let ?ok = "\<lparr>status = 200, json = Some (7 :: nat)\<rparr>"
  let ?bad = "\<lparr>status = 200, json = (None :: nat option)\<rparr>"
  have ok: "snd (execute ?g (\<lambda>k. Resolves ?ok) False) = ResponseHandle ?ok"
    by (simp add: execute_def request_def request_loop.simps [of _ _ _ 0] attempt_body_def
        isRetryableStatus_def new_IGPT_def js_or_def)
  have bad: "snd (execute ?g (\<lambda>k. Resolves ?bad) False) = ResponseHandle ?bad"
    by (simp add: execute_def request_def request_loop.simps [of _ _ _ 0] attempt_body_def
        isRetryableStatus_def new_IGPT_def js_or_def)
  have abort: "snd (execute ?g (\<lambda>k. Rejects (Some ''AbortError'') False :: nat fetch_outcome) False)
                 = ErrorObject ''request_aborted''"
    by (simp add: execute_def request_def request_loop.simps [of _ _ _ 0] attempt_body_def
        new_IGPT_def js_or_def)
  have one: "postJson ?g (\<lambda>k. Resolves ?ok) = ParsedJson 7"
    using postJson_outcomes [where g = ?g and fetch = "\<lambda>k. Resolves ?ok" and res = ?ok and v = 7] ok
    by simp
  have two: "postJson ?g (\<lambda>k. Resolves ?bad) = ErrorValue ''invalid_json_response''"
    using postJson_outcomes [where g = ?g and fetch = "\<lambda>k. Resolves ?bad" and res = ?bad] bad
    by simp
  have three: "postJson ?g (\<lambda>k. Rejects (Some ''AbortError'') False :: nat fetch_outcome)
                 = ErrorValue ''request_aborted''"
    using postJson_outcomes [where g = ?g
        and fetch = "\<lambda>k. Rejects (Some ''AbortError'') False :: nat fetch_outcome"
        and e = "''request_aborted''"] abort
    by simp
  show ?thesis
    using one two three by simp
qed

text \<open>
  C10. An option \<open>retries\<close>, \<open>backoffBase\<close> or \<open>backoffFactor\<close> that is absent or 0
  is replaced by the default 3, 100 or 2, so that no options give a client with zero
  retries; and a per-request timeout override of 0 is treated as absent: the loop runs
  with the client's timeout. (The falsy values of a numeric option in this model are the
  absent one and 0.)
\<close>

theorem falsy_options_defaults:
  "(options_retries opts = None \<or> options_retries opts = Some 0 \<longrightarrow>
      retries (http (new_IGPT opts)) = 3)
   \<and> (options_backoffBase opts = None \<or> options_backoffBase opts = Some 0 \<longrightarrow>
      backoffBase (http (new_IGPT opts)) = 100)
   \<and> (options_backoffFactor opts = None \<or> options_backoffFactor opts = Some 0 \<longrightarrow>
      backoffFactor (http (new_IGPT opts)) = 2)
   \<and> retries (http (new_IGPT opts)) \<noteq> 0
   \<and> request c fetch (Some 0) = request c fetch None
   \<and> request c fetch (Some 0) = request_loop c (timeout c) fetch 0"
  by (auto simp: new_IGPT_def js_or_def request_def split: option.splits)

text \<open>
  Options with \<open>retries: 0\<close> and \<open>backoffBase: 0\<close> give the default client.
\<close>

theorem falsy_options_defaults_witness:
  "http (new_IGPT \<lparr>options_apiKey = ''key'', options_user = None, options_baseUrl = None,
                   options_retries = Some 0, options_backoffBase = Some 0, options_backoffFactor = None\<rparr>)
     = \<lparr>retries = 3, backoffBase = 100, backoffFactor = 2, timeout = 60000\<rparr>
   \<and> request \<lparr>retries = 3, backoffBase = 100, backoffFactor = 2, timeout = 60000\<rparr>
         (\<lambda>k. Resolves \<lparr>status = 200, json = Some (7 :: nat)\<rparr>) (Some 0)
     = request \<lparr>retries = 3, backoffBase = 100, backoffFactor = 2, timeout = 60000\<rparr>
         (\<lambda>k. Resolves \<lparr>status = 200, json = Some (7 :: nat)\<rparr>) None"
proof -
  let ?opts = "\<lparr>options_apiKey = ''key'', options_user = None, options_baseUrl = None,
                   options_retries = Some 0, options_backoffBase = Some 0, options_backoffFactor = None\<rparr>"
  let ?c = "\<lparr>retries = 3, backoffBase = 100, backoffFactor = 2, timeout = 60000\<rparr>"
  note T = falsy_options_defaults [where opts = ?opts and c = ?c
      and fetch = "\<lambda>k. Resolves \<lparr>status = 200, json = Some (7 :: nat)\<rparr>"]
  have fields: "retries (http (new_IGPT ?opts)) = 3 \<and> backoffBase (http (new_IGPT ?opts)) = 100
        \<and> backoffFactor (http (new_IGPT ?opts)) = 2"
    using T by simp
  have tm: "timeout (http (new_IGPT ?opts)) = 60000"
    by (simp add: new_IGPT_def DEFAULT_TIMEOUT_MS_def)
  have "http (new_IGPT ?opts) = ?c"
    using fields tm by (cases "http (new_IGPT ?opts)") simp
  then show ?thesis
    using T by simp
qed


section \<open>Properties of the stream decoder\<close>

subsection \<open>Splitting into lines\<close>

lemma split_newline_nonempty: "split_newline s \<noteq> []"
  by (induction s) (auto split: list.splits)

lemma split_newline_append:
  "split_newline (a @ b) =
     butlast (split_newline a) @ split_newline (last (split_newline a) @ b)"
proof (induction a)
  case Nil
  then show ?case by simp
next
  case (Cons u us)
  show ?case
  proof (cases "u = 10")
    case True
    then show ?thesis
      using Cons split_newline_nonempty [of us] by simp
  next
    case False
    obtain l ls where us: "split_newline us = l # ls"
      using split_newline_nonempty [of us] by (cases "split_newline us") auto
    show ?thesis
    proof (cases ls)
      case Nil
      then show ?thesis
        using False us Cons by simp
    next
      case (Cons l2 ls2)
      then show ?thesis
        using False us Cons.IH by simp
    qed
  qed
qed

lemma split_newline_no_newline: "10 \<notin> set s \<Longrightarrow> split_newline s = [s]"
  by (induction s) auto

lemma split_newline_parts: "l \<in> set (split_newline s) \<Longrightarrow> 10 \<notin> set l"
proof (induction s arbitrary: l)
  case Nil
  then show ?case by simp
next
  case (Cons u us)
  obtain l0 ls where us: "split_newline us = l0 # ls"
    using split_newline_nonempty [of us] by (cases "split_newline us") auto
  show ?case
    using Cons.prems Cons.IH us by (auto split: if_splits)
qed

lemma fragment_no_newline: "10 \<notin> set (fragment s)"
  unfolding fragment_def using split_newline_parts [of "last (split_newline s)" s] split_newline_nonempty [of s]
  by simp


lemma complete_lines_append:
  "complete_lines (a @ b) = complete_lines a @ complete_lines (fragment a @ b)"
  unfolding complete_lines_def fragment_def
  by (subst split_newline_append) (simp add: butlast_append split_newline_nonempty)

lemma fragment_append: "fragment (a @ b) = fragment (fragment a @ b)"
  unfolding fragment_def
  by (subst split_newline_append) (simp add: split_newline_nonempty)



subsection \<open>The loops\<close>

lemma yields_append: "yields (xs @ ys) = yields xs @ yields ys"
  by (induction xs rule: yields.induct) simp_all

lemma map_filter_append:
  "List.map_filter f (xs @ ys) = List.map_filter f xs @ List.map_filter f ys"
  by (induction xs) (simp_all split: option.split)

lemma for_lines_never:
  "for_lines parse never seen ls =
     (map (\<lambda>v. Yield (Json v)) (List.map_filter (decode_line parse) ls),
      seen @ map Json (List.map_filter (decode_line parse) ls), Normal)"
  by (induction ls arbitrary: seen) (simp_all add: never_def split: option.split)

lemma yields_Json: "yields (map (\<lambda>v. Yield (Json v)) vs) = map Json vs"
  by (induction vs) simp_all

lemma while_loop_chunks:
  assumes "10 \<notin> set buffer"
  shows "\<exists>es d'. while_loop parse decode never buffer d seen (map Chunk cs) =
           (es @ [Read], fragment (buffer @ decode_chunks decode d cs),
            seen @ yields es, Normal)
         \<and> yields es = map Json (List.map_filter (decode_line parse)
                                    (complete_lines (buffer @ decode_chunks decode d cs)))
         \<and> count_list es Read = length cs
         \<and> ReleaseLock \<notin> set es
         \<and> (\<forall>tail. while_loop parse decode never buffer d seen (map Chunk cs @ tail) =
               (case while_loop parse decode never (fragment (buffer @ decode_chunks decode d cs)) d'
                       (seen @ yields es) tail of
                  (es', r) \<Rightarrow> (es @ es', r)))"
  using assms
proof (induction cs arbitrary: buffer d seen)
  case Nil
  then show ?case
    by (auto simp: fragment_def complete_lines_def split_newline_no_newline
        intro!: exI [of _ "[]"] exI [of _ d])
next
  case (Cons c cs)
  obtain str d1 where dec: "decode d c = (str, d1)"
    by (cases "decode d c") auto
  let ?lines = "split_newline (buffer @ str)"
  let ?buffer1 = "fragment (buffer @ str)"
  let ?vs = "List.map_filter (decode_line parse) (complete_lines (buffer @ str))"
  let ?seen1 = "seen @ map Json ?vs"
  have pop: "pop ?lines = (Some ?buffer1, complete_lines (buffer @ str))"
    by (simp add: pop_def split_newline_nonempty fragment_def complete_lines_def)
  have keep: "or_empty (Some ?buffer1) = ?buffer1"
    by (simp add: or_empty_def)
  have clean: "10 \<notin> set ?buffer1"
    by (rule fragment_no_newline)
  obtain es d' where
    run: "while_loop parse decode never ?buffer1 d1 ?seen1 (map Chunk cs) =
           (es @ [Read], fragment (?buffer1 @ decode_chunks decode d1 cs), ?seen1 @ yields es, Normal)"
    and ys: "yields es = map Json (List.map_filter (decode_line parse)
                                    (complete_lines (?buffer1 @ decode_chunks decode d1 cs)))"
    and rd: "count_list es Read = length cs"
    and rl: "ReleaseLock \<notin> set es"
    and tl: "\<forall>tail. while_loop parse decode never ?buffer1 d1 ?seen1 (map Chunk cs @ tail) =
               (case while_loop parse decode never (fragment (?buffer1 @ decode_chunks decode d1 cs)) d'
                       (?seen1 @ yields es) tail of
                  (es', r) \<Rightarrow> (es @ es', r))"
    using Cons.IH [OF clean, of d1 ?seen1] by blast
  let ?es = "Read # map (\<lambda>v. Yield (Json v)) ?vs @ es"
  have frag: "fragment (buffer @ decode_chunks decode d (c # cs)) =
              fragment (?buffer1 @ decode_chunks decode d1 cs)"
    using fragment_append [of "buffer @ str" "decode_chunks decode d1 cs"] by (simp add: dec)
  have lines: "complete_lines (buffer @ decode_chunks decode d (c # cs)) =
               complete_lines (buffer @ str) @ complete_lines (?buffer1 @ decode_chunks decode d1 cs)"
    using complete_lines_append [of "buffer @ str" "decode_chunks decode d1 cs"] by (simp add: dec)
  have ys': "yields ?es = map Json (List.map_filter (decode_line parse)
                                    (complete_lines (buffer @ decode_chunks decode d (c # cs))))"
    unfolding lines by (simp add: yields_append yields_Json ys map_filter_append)
  have seen': "seen @ yields ?es = ?seen1 @ yields es"
    by (simp add: yields_append yields_Json)
  have run': "while_loop parse decode never buffer d seen (map Chunk (c # cs)) =
           (?es @ [Read], fragment (buffer @ decode_chunks decode d (c # cs)), seen @ yields ?es, Normal)"
    unfolding frag seen' by (simp add: dec pop keep for_lines_never run)
  have tl': "\<forall>tail. while_loop parse decode never buffer d seen (map Chunk (c # cs) @ tail) =
               (case while_loop parse decode never (fragment (buffer @ decode_chunks decode d (c # cs))) d'
                       (seen @ yields ?es) tail of
                  (es', r) \<Rightarrow> (?es @ es', r))"
    unfolding frag seen' by (simp add: dec pop keep for_lines_never tl split: prod.split)
  have "count_list (map (\<lambda>v. Yield (Json v)) ?vs) Read = 0"
    by (auto simp: count_list_0_iff)
  then have rd': "count_list ?es Read = length (c # cs)"
    by (simp add: rd)
  have rl': "ReleaseLock \<notin> set ?es"
    using rl by auto
  show ?case
    using run' ys' rd' rl' tl' by blast
qed








lemma iterate_chunks_then_raises:
  fixes decode :: "'d \<Rightarrow> bytes \<Rightarrow> jsstring \<times> 'd"
  shows "\<exists>es. fst (iterate parse decode init never (map Chunk cs)) = es @ [Read, ReleaseLock]
        \<and> fst (iterate parse decode init never (map Chunk cs @ ReadRaises # rest))
            = es @ [Read, Yield NetworkError, ReleaseLock]
        \<and> snd (snd (iterate parse decode init never (map Chunk cs @ ReadRaises # rest)))
            = yields es @ [NetworkError]
        \<and> count_list es Read = length cs"
proof -
  have clean: "10 \<notin> set ([] :: jsstring)" by simp
  obtain es and d' :: 'd where
    run: "while_loop parse decode never [] init [] (map Chunk cs) =
           (es @ [Read], fragment ([] @ decode_chunks decode init cs), [] @ yields es, Normal)"
    and rd: "count_list es Read = length cs"
    and tl: "\<forall>tail. while_loop parse decode never [] init [] (map Chunk cs @ tail) =
               (case while_loop parse decode never (fragment ([] @ decode_chunks decode init cs)) d'
                       ([] @ yields es) tail of
                  (es', r) \<Rightarrow> (es @ es', r))"
    using while_loop_chunks [OF clean, of parse decode init "[]" cs] by blast
  have "while_loop parse decode never [] init [] (map Chunk cs @ ReadRaises # rest) =
           (es @ [Read, Yield NetworkError], fragment (decode_chunks decode init cs),
            yields es @ [NetworkError], Normal)"
    using tl by (simp add: never_def)
  then show ?thesis
    using run rd by (auto simp: iterate_def)
qed


lemma decode_line_Some:
  "startsWith (trim raw) (ascii ''data:'') \<Longrightarrow> trim (slice (trim raw) 5) \<noteq> [] \<Longrightarrow>
   decode_line parse raw = parse (trim (slice (trim raw) 5))"
  by (simp add: decode_line_def Let_def)




subsection \<open>The claims\<close>



text \<open>
  C6. When a pull raises after the chunks \<open>cs\<close>, the consumer that iterates to the end
  receives the values of \<open>cs\<close>, as a stream ending after \<open>cs\<close> would give them, then
  the one value \<open>{error: "network_error"}\<close>, and then the sequence ends: the reader is
  released, nothing is read after the pull that raised, and the function has a value
  for every input (nothing is raised to the consumer).
\<close>

theorem pull_failure_reported:
  fixes decode :: "'d \<Rightarrow> bytes \<Rightarrow> jsstring \<times> 'd"
  shows "yields (fst (iterate parse decode init never (map Chunk cs @ ReadRaises # rest))) =
           yields (fst (iterate parse decode init never (map Chunk cs))) @ [NetworkError]
       \<and> (\<exists>es. fst (iterate parse decode init never (map Chunk cs)) = es @ [Read, ReleaseLock]
              \<and> fst (iterate parse decode init never (map Chunk cs @ ReadRaises # rest))
                  = es @ [Read, Yield NetworkError, ReleaseLock])
       \<and> count_list (fst (iterate parse decode init never (map Chunk cs @ ReadRaises # rest))) Read
           = length cs + 1"
proof -
  obtain es where a: "fst (iterate parse decode init never (map Chunk cs)) = es @ [Read, ReleaseLock]"
    and b: "fst (iterate parse decode init never (map Chunk cs @ ReadRaises # rest))
            = es @ [Read, Yield NetworkError, ReleaseLock]"
    and c: "count_list es Read = length cs"
    using iterate_chunks_then_raises [of parse decode init cs rest] by blast
  have "yields (fst (iterate parse decode init never (map Chunk cs @ ReadRaises # rest))) =
           yields (fst (iterate parse decode init never (map Chunk cs))) @ [NetworkError]"
    by (simp add: a b yields_append)
  moreover have "count_list (fst (iterate parse decode init never (map Chunk cs @ ReadRaises # rest))) Read
           = length cs + 1"
    by (simp add: b c)
  ultimately show ?thesis
    using a b by blast
qed

text \<open>
  Two frames, the second cut by a chunk boundary, and then a pull that raises.
\<close>

theorem pull_failure_reported_witness:
  "yields (fst (iterate example_parse ascii_decode () never
     [Chunk ''data: {\"a\":1}\<newline>data: {\"b'', Chunk ''\":2}\<newline>'', ReadRaises]))
   = [Json (JObject [(''a'', JNumber 1)]), Json (JObject [(''b'', JNumber 2)]), NetworkError]"
proof -
  have run: "yields (fst (iterate example_parse ascii_decode () never
     (map Chunk [''data: {\"a\":1}\<newline>data: {\"b'', ''\":2}\<newline>''])))
     = [Json (JObject [(''a'', JNumber 1)]), Json (JObject [(''b'', JNumber 2)])]"
    by (simp add: iterate_def never_def ascii_decode_def ascii_def pop_def or_empty_def
        decode_line_def trim_def startsWith_def slice_def isWhiteSpace_def example_parse_def)
  show ?thesis
    using pull_failure_reported [of example_parse ascii_decode "()"
        "[''data: {\"a\":1}\<newline>data: {\"b'', ''\":2}\<newline>'']" "[]"] run
    by simp
qed








end
